theory Spec2Isabelle
  imports Main "HOL-Library.AList"
begin

section \<open>Data model\<close>

text \<open>
  The TypeScript types \<^verbatim>\<open>Location\<close>, \<^verbatim>\<open>Cell\<close> and \<^verbatim>\<open>World\<close> are object types
  with exactly the fields below. Coordinates and the generation counter have the type
  \<^verbatim>\<open>number\<close>; every value the program computes from integer inputs is an integer
  (only \<^verbatim>\<open>+\<close>, \<^verbatim>\<open>-\<close> and multiplication by \<open>\<plusminus>1\<close> occur), so they are modelled
  as \<^typ>\<open>int\<close>. The program compares numbers with \<^verbatim>\<open>===\<close> and through their decimal
  rendering only, and both identify \<^verbatim>\<open>-0\<close> with \<^verbatim>\<open>0\<close>, as \<^typ>\<open>int\<close> does.
  A \<^verbatim>\<open>number\<close> is an IEEE double: the integers of magnitude up to \<open>2^53\<close> are exact
  and \<^verbatim>\<open>+ 1\<close>, \<^verbatim>\<open>- 1\<close> between them are exact, while beyond that \<^verbatim>\<open>x + 1\<close> rounds
  (\<open>2^53 + 1\<close> gives \<open>2^53\<close>). The model agrees with the program where every sum it
  forms stays within that magnitude; a statement that depends on the neighbour
  arithmetic carries the bound as a hypothesis.
\<close>

record Location =
  x :: int
  y :: int

datatype CellState = Alive | Dead

record Cell =
  location :: Location
  state :: CellState

record World =
  time :: int
  cells :: "Cell list"

definition isAlive :: "Cell \<Rightarrow> bool" where
  "isAlive cell \<longleftrightarrow> state cell = Alive"

definition isDead :: "Cell \<Rightarrow> bool" where
  "isDead cell \<longleftrightarrow> \<not> isAlive cell"

definition kill :: "Cell \<Rightarrow> Cell" where
  "kill cell = cell\<lparr>state := Dead\<rparr>"

definition vivify :: "Cell \<Rightarrow> Cell" where
  "vivify cell = cell\<lparr>state := Alive\<rparr>"

section \<open>World queries\<close>

definition isCellAtLocation :: "Cell \<Rightarrow> Location \<Rightarrow> bool" where
  "isCellAtLocation cell l \<longleftrightarrow> x (location cell) = x l \<and> y (location cell) = y l"

text \<open>
  \<^verbatim>\<open>world.cells.find(...) ?? { location, state: "dead" }\<close>: the first cell of the
  array at the location, or a fresh dead cell when \<^verbatim>\<open>find\<close> gives \<^verbatim>\<open>undefined\<close>.
\<close>

definition getCell :: "World \<Rightarrow> Location \<Rightarrow> Cell" where
  "getCell world l =
     (case find (\<lambda>c. isCellAtLocation c l) (cells world) of
        Some c \<Rightarrow> c
      | None \<Rightarrow> \<lparr>location = l, state = Dead\<rparr>)"

text \<open>
  The local array \<^verbatim>\<open>neighborLocations\<close> of \<^verbatim>\<open>getCellNeighbors\<close>, in its order.
\<close>

definition neighborLocations :: "Location \<Rightarrow> Location list" where
  "neighborLocations l =
     [\<lparr>x = x l - 1, y = y l - 1\<rparr>,
      \<lparr>x = x l, y = y l - 1\<rparr>,
      \<lparr>x = x l + 1, y = y l - 1\<rparr>,
      \<lparr>x = x l - 1, y = y l\<rparr>,
      \<lparr>x = x l + 1, y = y l\<rparr>,
      \<lparr>x = x l - 1, y = y l + 1\<rparr>,
      \<lparr>x = x l, y = y l + 1\<rparr>,
      \<lparr>x = x l + 1, y = y l + 1\<rparr>]"

definition getCellNeighbors :: "World \<Rightarrow> Cell \<Rightarrow> Cell list" where
  "getCellNeighbors world cell = map (\<lambda>l. getCell world l) (neighborLocations (location cell))"

definition getLivingCellNeighbors :: "World \<Rightarrow> Cell \<Rightarrow> Cell list" where
  "getLivingCellNeighbors world cell = filter isAlive (getCellNeighbors world cell)"

definition getDeadCellNeighbors :: "World \<Rightarrow> Cell \<Rightarrow> Cell list" where
  "getDeadCellNeighbors world cell = filter isDead (getCellNeighbors world cell)"

section \<open>The tick engine\<close>

definition getNextTickCell :: "World \<Rightarrow> Cell \<Rightarrow> Cell" where
  "getNextTickCell world cell =
     (let livingNeighbors = getLivingCellNeighbors world cell;
          numLivingNeighbors = length livingNeighbors
      in if isAlive cell
         then (if numLivingNeighbors = 2 \<or> numLivingNeighbors = 3 then cell else kill cell)
         else (if numLivingNeighbors = 3 then vivify cell else cell))"

text \<open>
  \<^verbatim>\<open>uniqueCells\<close> indexes the cells in a \<^verbatim>\<open>Map\<close> under the string
  \<^verbatim>\<open>`${location.x}/${location.y}`\<close> and reads the values back through
  \<^verbatim>\<open>Object.values(Object.fromEntries(index))\<close>. A \<^verbatim>\<open>Map\<close> keeps its keys in the
  order of their first insertion and \<^verbatim>\<open>set\<close> on a present key replaces the value in
  place: that is \<^const>\<open>AList.update\<close> on an association list. No key is an array index
  (each holds a \<^verbatim>\<open>/\<close>), so the object enumerates its values in the same order.
  \<^verbatim>\<open>numberToString\<close> is the decimal rendering of an integer by the template literal.
\<close>

definition digitChar :: "nat \<Rightarrow> char" where
  "digitChar d = char_of (48 + d)"

fun digits :: "nat \<Rightarrow> string" where
  "digits n = (if n < 10 then [digitChar n] else digits (n div 10) @ [digitChar (n mod 10)])"

declare digits.simps [simp del]

definition numberToString :: "int \<Rightarrow> string" where
  "numberToString i = (if i < 0 then CHR ''-'' # digits (nat (- i)) else digits (nat i))"

definition cellKey :: "Location \<Rightarrow> string" where
  "cellKey l = numberToString (x l) @ ''/'' @ numberToString (y l)"

definition indexCells :: "Cell list \<Rightarrow> (string \<times> Cell) list" where
  "indexCells cs = foldl (\<lambda>index cell. AList.update (cellKey (location cell)) cell index) [] cs"

definition uniqueCells :: "Cell list \<Rightarrow> Cell list" where
  "uniqueCells cs = map snd (indexCells cs)"

definition getLivingCells :: "World \<Rightarrow> Cell list" where
  "getLivingCells world = filter isAlive (cells world)"

definition getDeadNeighborsOfLivingCells :: "World \<Rightarrow> Cell list" where
  "getDeadNeighborsOfLivingCells world =
     uniqueCells
       (foldl (\<lambda>acc curr. acc @ curr) []
          (map (\<lambda>c. getDeadCellNeighbors world c) (filter isAlive (cells world))))"

definition tick :: "World \<Rightarrow> World" where
  "tick world =
     \<lparr>time = time world + 1,
      cells = map (\<lambda>cell. getNextTickCell world cell)
                (getLivingCells world @ getDeadNeighborsOfLivingCells world)\<rparr>"

section \<open>Patterns and their symmetries\<close>

text \<open>
  A \<^verbatim>\<open>Pattern\<close> is a function of an optional center; \<^const>\<open>None\<close> is the call
  without an argument, where the parameter's default \<^verbatim>\<open>{ x: 0, y: 0 }\<close> applies.
\<close>

type_synonym Pattern = "Location option \<Rightarrow> Cell list"

definition centerOrDefault :: "Location option \<Rightarrow> Location" where
  "centerOrDefault center = (case center of None \<Rightarrow> \<lparr>x = 0, y = 0\<rparr> | Some c \<Rightarrow> c)"

definition blinker2 :: Pattern where
  "blinker2 center =
     (let c = centerOrDefault center
      in [\<lparr>location = \<lparr>x = x c - 1, y = y c\<rparr>, state = Alive\<rparr>,
          \<lparr>location = \<lparr>x = x c, y = y c\<rparr>, state = Alive\<rparr>,
          \<lparr>location = \<lparr>x = x c + 1, y = y c\<rparr>, state = Alive\<rparr>])"

definition translate :: "Pattern \<Rightarrow> Location \<Rightarrow> Pattern" where
  "translate pattern relative =
     (let cs = pattern None
      in (\<lambda>center.
            let c = centerOrDefault center
            in map (\<lambda>cell. cell\<lparr>location :=
                      \<lparr>x = x c + x (location cell) + x relative,
                       y = x c + y (location cell) + y relative\<rparr>\<rparr>) cs))"

datatype Axis = AxisX | AxisY

definition mirror :: "Pattern \<Rightarrow> Axis \<Rightarrow> Pattern" where
  "mirror pattern axis =
     (let flip = (if axis = AxisX then 1 else - 1)
      in (\<lambda>center.
            let cs = pattern None
            in map (\<lambda>cell. cell\<lparr>location :=
                      (location cell)\<lparr>x := flip * x (location cell),
                                      y := - 1 * flip * y (location cell)\<rparr>\<rparr>) cs))"

datatype RotationDirection = Clockwise | Counterclockwise

record Rotation =
  direction :: RotationDirection
  rvalue :: int
  center :: Location

datatype error = Error string

text \<open>
  \<^verbatim>\<open>rotateLocation\<close> switches on \<^verbatim>\<open>rotation.value\<close>; the \<^verbatim>\<open>default\<close> branch
  \<^verbatim>\<open>throw new Error("")\<close> is the value \<open>Inl (Error [])\<close>. The field \<^verbatim>\<open>value\<close> is
  named \<open>rvalue\<close> here and is any number at run time, hence an \<^typ>\<open>int\<close>.
\<close>

definition rotateLocation :: "Location \<Rightarrow> Rotation \<Rightarrow> error + Location" where
  "rotateLocation l rotation =
     (let flip = (if direction rotation = Clockwise then 1 else - 1);
          rot90 = (\<lambda>p. \<lparr>x = flip * (y p - y (center rotation)),
                         y = - 1 * flip * (x p - x (center rotation))\<rparr>);
          nrot90 = (\<lambda>p. \<lparr>x = - 1 * flip * (y p - y (center rotation)),
                          y = flip * (x p - x (center rotation))\<rparr>);
          rot180 = (\<lambda>p. \<lparr>x = - y p, y = - x p\<rparr>)
      in if rvalue rotation = 90 \<or> rvalue rotation = - 270 then Inr (rot90 l)
         else if rvalue rotation = - 90 \<or> rvalue rotation = 270 then Inr (nrot90 l)
         else if rvalue rotation = 180 then Inr (rot180 l)
         else Inl (Error []))"

text \<open>
  \<^verbatim>\<open>rotate\<close> maps \<^verbatim>\<open>rotateLocation\<close> over the cells of \<^verbatim>\<open>pattern()\<close>; the first
  exception thrown ends the map. The direction defaults to counterclockwise.
\<close>

fun mapCells :: "(Cell \<Rightarrow> error + Cell) \<Rightarrow> Cell list \<Rightarrow> error + Cell list" where
  "mapCells f [] = Inr []"
| "mapCells f (c # cs) =
     (case f c of
        Inl e \<Rightarrow> Inl e
      | Inr c' \<Rightarrow> (case mapCells f cs of Inl e \<Rightarrow> Inl e | Inr cs' \<Rightarrow> Inr (c' # cs')))"

definition rotate :: "Pattern \<Rightarrow> int \<Rightarrow> RotationDirection option
    \<Rightarrow> Location option \<Rightarrow> error + Cell list" where
  "rotate pattern v dir cen =
     (let d = (case dir of None \<Rightarrow> Counterclockwise | Some d \<Rightarrow> d);
          c = centerOrDefault cen
      in mapCells
           (\<lambda>p. case rotateLocation (location p) \<lparr>direction = d, rvalue = v, center = c\<rparr> of
                   Inl e \<Rightarrow> Inl e
                 | Inr l \<Rightarrow> Inr (p\<lparr>location := l\<rparr>))
           (pattern None))"

text \<open>
  \<^verbatim>\<open>compose\<close> calls every pattern without a center, concatenates the results
  (\<^verbatim>\<open>flatMap\<close>), reverses the list and de-duplicates it.
\<close>

definition compose :: "Pattern list \<Rightarrow> Cell list" where
  "compose patterns =
     (let cs = concat (map (\<lambda>pattern. pattern None) patterns)
      in uniqueCells (rev cs))"

section \<open>Auxiliary definitions\<close>

text \<open>
  Reading a decimal rendering back, used to show that \<^const>\<open>digits\<close> loses nothing.
\<close>

definition digitVal :: "char \<Rightarrow> nat" where
  "digitVal c = of_char c - 48"

definition undigits :: "string \<Rightarrow> nat" where
  "undigits s = foldl (\<lambda>a c. 10 * a + digitVal c) 0 s"

text \<open>
  The world the driving hook builds from an initial cell list:
  \<^verbatim>\<open>{ time: 0, cells: initial }\<close>.
\<close>

definition initialWorld :: "Cell list \<Rightarrow> World" where
  "initialWorld initial = \<lparr>time = 0, cells = initial\<rparr>"

text \<open>Two one-cell patterns that differ in the state of their cell only.\<close>

definition livingDot :: Pattern where
  "livingDot cen = [\<lparr>location = centerOrDefault cen, state = Alive\<rparr>]"

definition deadDot :: Pattern where
  "deadDot cen = [\<lparr>location = centerOrDefault cen, state = Dead\<rparr>]"

section \<open>The keys of the index are injective\<close>

lemma digitVal_digitChar: "d < 10 \<Longrightarrow> digitVal (digitChar d) = d"
  by (simp add: digitVal_def digitChar_def)

lemma undigits_digits: "undigits (digits n) = n"
proof (induction n rule: digits.induct)
  case (1 n)
  show ?case
  proof (cases "n < 10")
    case True
    then show ?thesis by (simp add: digits.simps [of n] undigits_def digitVal_digitChar)
  next
    case False
    with 1 have "undigits (digits (n div 10)) = n div 10" by simp
    with False show ?thesis
      by (simp add: digits.simps [of n] undigits_def digitVal_digitChar)
  qed
qed

lemma digits_inj: "digits n = digits m \<Longrightarrow> n = m"
  by (metis undigits_digits)

lemma of_char_digitChar: "d < 10 \<Longrightarrow> (of_char (digitChar d) :: nat) = 48 + d"
  by (simp add: digitChar_def)

lemma digitChar_range:
  assumes "d < 10"
  shows "digitChar d \<noteq> CHR ''-''" and "digitChar d \<noteq> CHR ''/''"
proof -
  have v: "(of_char (digitChar d) :: nat) = 48 + d" using assms by (rule of_char_digitChar)
  show "digitChar d \<noteq> CHR ''-''"
  proof
    assume "digitChar d = CHR ''-''"
    with v show False by simp
  qed
  show "digitChar d \<noteq> CHR ''/''"
  proof
    assume "digitChar d = CHR ''/''"
    with v show False by simp
  qed
qed

lemma digits_chars: "c \<in> set (digits n) \<Longrightarrow> c \<noteq> CHR ''-'' \<and> c \<noteq> CHR ''/''"
proof (induction n rule: digits.induct)
  case (1 n)
  show ?case
  proof (cases "n < 10")
    case True
    with "1.prems" have "c = digitChar n" by (simp add: digits.simps [of n])
    with True show ?thesis by (simp add: digitChar_range)
  next
    case False
    with "1.prems" have "c = digitChar (n mod 10) \<or> c \<in> set (digits (n div 10))"
      by (simp add: digits.simps [of n])
    then show ?thesis
    proof
      assume "c = digitChar (n mod 10)"
      then show ?thesis by (simp add: digitChar_range)
    next
      assume "c \<in> set (digits (n div 10))"
      with False show ?thesis by (rule "1.IH")
    qed
  qed
qed

lemma digits_nonempty: "digits n \<noteq> []"
  by (simp add: digits.simps [of n])

lemma numberToString_inj: "numberToString i = numberToString j \<Longrightarrow> i = j"
proof -
  assume eq: "numberToString i = numberToString j"
  have hd_digits: "\<And>n. hd (digits n) \<noteq> CHR ''-''"
    using digits_chars digits_nonempty hd_in_set by blast
  show "i = j"
  proof (cases "i < 0")
    case True
    show ?thesis
    proof (cases "j < 0")
      case jn: True
      with True eq have "digits (nat (- i)) = digits (nat (- j))"
        by (simp add: numberToString_def)
      then have "nat (- i) = nat (- j)" by (rule digits_inj)
      with True jn show ?thesis by simp
    next
      case jp: False
      with True eq have "CHR ''-'' # digits (nat (- i)) = digits (nat j)"
        by (simp add: numberToString_def)
      then have "hd (digits (nat j)) = CHR ''-''" by (metis list.sel(1))
      with hd_digits show ?thesis by blast
    qed
  next
    case False
    show ?thesis
    proof (cases "j < 0")
      case jn: True
      with False eq have "digits (nat i) = CHR ''-'' # digits (nat (- j))"
        by (simp add: numberToString_def)
      then have "hd (digits (nat i)) = CHR ''-''" by (metis list.sel(1))
      with hd_digits show ?thesis by blast
    next
      case jp: False
      with False eq have "digits (nat i) = digits (nat j)"
        by (simp add: numberToString_def)
      then have "nat i = nat j" by (rule digits_inj)
      with False jp show ?thesis by simp
    qed
  qed
qed

lemma numberToString_no_slash: "CHR ''/'' \<notin> set (numberToString i)"
  using digits_chars by (auto simp: numberToString_def)

lemma split_at_separator:
  "s \<notin> set a \<Longrightarrow> s \<notin> set a' \<Longrightarrow> a @ s # b = a' @ s # b' \<Longrightarrow> a = a' \<and> b = b'"
proof (induction a arbitrary: a')
  case Nil
  then show ?case by (cases a') auto
next
  case (Cons h t)
  then show ?case by (cases a') auto
qed

lemma cellKey_inj: "cellKey l = cellKey l' \<Longrightarrow> l = l'"
proof -
  assume "cellKey l = cellKey l'"
  then have "numberToString (x l) @ CHR ''/'' # numberToString (y l)
      = numberToString (x l') @ CHR ''/'' # numberToString (y l')"
    by (simp add: cellKey_def)
  then have "numberToString (x l) = numberToString (x l') \<and>
      numberToString (y l) = numberToString (y l')"
    by (rule split_at_separator [OF numberToString_no_slash numberToString_no_slash])
  then have "x l = x l'" and "y l = y l'"
    by (auto dest: numberToString_inj)
  then show "l = l'" by simp
qed

lemma cellKey_eq_iff: "cellKey l = cellKey l' \<longleftrightarrow> l = l'"
  using cellKey_inj by blast


section \<open>De-duplication by location\<close>

lemma indexCells_snoc:
  "indexCells (cs @ [c]) = AList.update (cellKey (location c)) c (indexCells cs)"
  by (simp add: indexCells_def)

lemma update_keyed:
  "\<forall>p\<in>set idx. fst p = cellKey (location (snd p)) \<Longrightarrow>
   \<forall>p\<in>set (AList.update (cellKey (location c)) c idx). fst p = cellKey (location (snd p))"
  by (induction idx) auto

lemma indexCells_keyed: "\<forall>p\<in>set (indexCells cs). fst p = cellKey (location (snd p))"
proof (induction cs rule: rev_induct)
  case Nil
  show ?case by (simp add: indexCells_def)
next
  case (snoc c cs)
  then show ?case unfolding indexCells_snoc by (rule update_keyed)
qed

lemma indexCells_distinct_keys: "distinct (map fst (indexCells cs))"
proof (induction cs rule: rev_induct)
  case Nil
  show ?case by (simp add: indexCells_def)
next
  case (snoc c cs)
  then show ?case unfolding indexCells_snoc by (rule distinct_update)
qed

lemma find_update_keyed:
  assumes "\<forall>p\<in>set idx. fst p = cellKey (location (snd p))"
  shows "find (\<lambda>v. location v = l) (map snd (AList.update (cellKey (location c)) c idx))
       = (if location c = l then Some c else find (\<lambda>v. location v = l) (map snd idx))"
  using assms by (induction idx) (auto simp: cellKey_eq_iff)

lemma uniqueCells_find:
  "find (\<lambda>v. location v = l) (uniqueCells cs) = find (\<lambda>v. location v = l) (rev cs)"
proof (induction cs rule: rev_induct)
  case Nil
  show ?case by (simp add: uniqueCells_def indexCells_def)
next
  case (snoc c cs)
  have "find (\<lambda>v. location v = l) (uniqueCells (cs @ [c]))
      = (if location c = l then Some c else find (\<lambda>v. location v = l) (uniqueCells cs))"
    unfolding uniqueCells_def indexCells_snoc
    by (rule find_update_keyed [OF indexCells_keyed])
  with snoc show ?case by simp
qed

lemma uniqueCells_distinct: "distinct (map location (uniqueCells cs))"
proof -
  have "map fst (indexCells cs) = map cellKey (map location (uniqueCells cs))"
    using indexCells_keyed [of cs] by (simp add: uniqueCells_def)
  with indexCells_distinct_keys [of cs]
  have "distinct (map cellKey (map location (uniqueCells cs)))" by simp
  then show ?thesis
    using distinct_map [of cellKey "map location (uniqueCells cs)"] by blast
qed

lemma location_mem_find:
  "l \<in> set (map location cs) \<longleftrightarrow> find (\<lambda>v. location v = l) cs \<noteq> None"
  by (auto simp: find_None_iff)

lemma uniqueCells_locations: "set (map location (uniqueCells cs)) = set (map location cs)"
proof -
  have "l \<in> set (map location (uniqueCells cs)) \<longleftrightarrow> l \<in> set (map location cs)" for l
  proof -
    have "l \<in> set (map location (uniqueCells cs))
        \<longleftrightarrow> find (\<lambda>v. location v = l) (rev cs) \<noteq> None"
      by (simp only: location_mem_find uniqueCells_find)
    also have "\<dots> \<longleftrightarrow> l \<in> set (map location (rev cs))"
      by (simp only: location_mem_find)
    finally show ?thesis by simp
  qed
  then show ?thesis by blast
qed

lemma update_values_subset:
  "set (map snd (AList.update k v al)) \<subseteq> insert v (set (map snd al))"
  by (induction al) auto

lemma uniqueCells_subset: "set (uniqueCells cs) \<subseteq> set cs"
proof (induction cs rule: rev_induct)
  case Nil
  show ?case by (simp add: uniqueCells_def indexCells_def)
next
  case (snoc c cs)
  have "set (uniqueCells (cs @ [c])) \<subseteq> insert c (set (uniqueCells cs))"
    unfolding uniqueCells_def indexCells_snoc by (rule update_values_subset)
  with snoc show ?case by auto
qed

text \<open>
  Claim C10. For every cell list, \<^const>\<open>uniqueCells\<close> returns a list with at most one
  cell per location, the locations of the output are exactly the locations of the input,
  and the cell kept at a location \<open>l\<close> is the last cell of the input at \<open>l\<close>: the first
  one met when the input is read from its end.
\<close>

theorem uniqueCells_last_wins:
  "distinct (map location (uniqueCells cs))
   \<and> set (map location (uniqueCells cs)) = set (map location cs)
   \<and> find (\<lambda>c. location c = l) (uniqueCells cs) = find (\<lambda>c. location c = l) (rev cs)"
  using uniqueCells_distinct uniqueCells_locations uniqueCells_find by blast

section \<open>Composition of patterns\<close>

text \<open>
  Claim C5 as stated fails: \<^const>\<open>compose\<close> reverses the concatenated cells before it
  de-duplicates them, so of two cells at one location the one of the earlier pattern is
  kept. Here the living cell of the first pattern is kept and the dead cell of the second
  one is dropped.
\<close>

theorem compose_later_entry_loses:
  "compose [livingDot, deadDot] = livingDot None \<and> compose [livingDot, deadDot] \<noteq> deadDot None"
  by code_simp

text \<open>
  Claim C5, amended. For every list of patterns, \<^const>\<open>compose\<close> returns a list with at
  most one cell per location, over exactly the locations the patterns produce, and the
  cell kept at a location \<open>l\<close> is the first cell at \<open>l\<close> in the input order: the earlier
  entry wins.
\<close>

theorem compose_first_wins:
  "distinct (map location (compose ps))
   \<and> set (map location (compose ps)) = set (map location (concat (map (\<lambda>p. p None) ps)))
   \<and> find (\<lambda>c. location c = l) (compose ps)
       = find (\<lambda>c. location c = l) (concat (map (\<lambda>p. p None) ps))"
proof -
  define cs where "cs = concat (map (\<lambda>p. p None) ps)"
  have c: "compose ps = uniqueCells (rev cs)"
    by (simp add: compose_def cs_def)
  have "distinct (map location (uniqueCells (rev cs)))"
    by (rule uniqueCells_distinct)
  moreover have "set (map location (uniqueCells (rev cs))) = set (map location cs)"
    using uniqueCells_locations [of "rev cs"] by simp
  moreover have "find (\<lambda>c. location c = l) (uniqueCells (rev cs))
      = find (\<lambda>c. location c = l) cs"
    using uniqueCells_find [of l "rev cs"] by simp
  ultimately show ?thesis unfolding c cs_def by blast
qed

section \<open>Point queries\<close>

lemma isCellAtLocation_iff: "isCellAtLocation c l \<longleftrightarrow> location c = l"
  by (auto simp: isCellAtLocation_def)

lemma find_Some_mem: "find P cs = Some c \<Longrightarrow> c \<in> set cs \<and> P c"
  by (induction cs) (auto split: if_splits)

lemma getCell_cases:
  "(getCell w l \<in> set (cells w) \<and> location (getCell w l) = l)
   \<or> ((\<forall>c\<in>set (cells w). location c \<noteq> l) \<and> getCell w l = \<lparr>location = l, state = Dead\<rparr>)"
proof (cases "find (\<lambda>c. isCellAtLocation c l) (cells w)")
  case None
  then have "getCell w l = \<lparr>location = l, state = Dead\<rparr>"
    by (simp add: getCell_def)
  moreover from None have "\<forall>c\<in>set (cells w). location c \<noteq> l"
    by (simp add: find_None_iff isCellAtLocation_iff)
  ultimately show ?thesis by blast
next
  case (Some c)
  then have "getCell w l = c" by (simp add: getCell_def)
  with find_Some_mem [OF Some] show ?thesis
    by (simp add: isCellAtLocation_iff)
qed

lemma getCell_location: "location (getCell w l) = l"
  using getCell_cases [of w l] by auto

text \<open>
  Claim C2. \<^const>\<open>getCell\<close> is a total function: for every world and every location
  it returns a cell, and that cell is at the location asked for. Where no cell of the
  world's collection has the location, the cell returned is the dead cell at it.
\<close>

theorem getCell_untracked_dead:
  "location (getCell w l) = l
   \<and> ((\<forall>c\<in>set (cells w). location c \<noteq> l) \<longrightarrow> getCell w l = \<lparr>location = l, state = Dead\<rparr>)"
  using getCell_cases [of w l] by auto

theorem getCell_untracked_dead_witness:
  "\<lparr>x = 5, y = 5\<rparr> \<notin> set (map location (cells (initialWorld (blinker2 None))))
   \<and> location (getCell (initialWorld (blinker2 None)) \<lparr>x = 5, y = 5\<rparr>) = \<lparr>x = 5, y = 5\<rparr>
   \<and> getCell (initialWorld (blinker2 None)) \<lparr>x = 5, y = 5\<rparr>
       = \<lparr>location = \<lparr>x = 5, y = 5\<rparr>, state = Dead\<rparr>"
proof -
  have h: "\<forall>c\<in>set (cells (initialWorld (blinker2 None))). location c \<noteq> \<lparr>x = 5, y = 5\<rparr>"
    by (simp add: initialWorld_def blinker2_def centerOrDefault_def)
  then have "\<lparr>x = 5, y = 5\<rparr> \<notin> set (map location (cells (initialWorld (blinker2 None))))"
    by auto
  with h getCell_untracked_dead [of "initialWorld (blinker2 None)" "\<lparr>x = 5, y = 5\<rparr>"]
  show ?thesis by blast
qed

section \<open>One generation\<close>

text \<open>
  Claim C1. From the world of generation 0 whose cells are the three living cells
  \<open>(-1,0)\<close>, \<open>(0,0)\<close>, \<open>(1,0)\<close>, one \<^const>\<open>tick\<close> leaves living cells at exactly
  \<open>(0,-1)\<close>, \<open>(0,0)\<close>, \<open>(0,1)\<close>, and a second one at exactly \<open>(-1,0)\<close>, \<open>(0,0)\<close>,
  \<open>(1,0)\<close> again, compared as sets of locations.
\<close>

theorem blinker_period2:
  "set (map location (getLivingCells (tick (initialWorld
        [\<lparr>location = \<lparr>x = - 1, y = 0\<rparr>, state = Alive\<rparr>,
         \<lparr>location = \<lparr>x = 0, y = 0\<rparr>, state = Alive\<rparr>,
         \<lparr>location = \<lparr>x = 1, y = 0\<rparr>, state = Alive\<rparr>]))))
     = {\<lparr>x = 0, y = - 1\<rparr>, \<lparr>x = 0, y = 0\<rparr>, \<lparr>x = 0, y = 1\<rparr>}
   \<and> set (map location (getLivingCells (tick (tick (initialWorld
        [\<lparr>location = \<lparr>x = - 1, y = 0\<rparr>, state = Alive\<rparr>,
         \<lparr>location = \<lparr>x = 0, y = 0\<rparr>, state = Alive\<rparr>,
         \<lparr>location = \<lparr>x = 1, y = 0\<rparr>, state = Alive\<rparr>])))))
     = {\<lparr>x = - 1, y = 0\<rparr>, \<lparr>x = 0, y = 0\<rparr>, \<lparr>x = 1, y = 0\<rparr>}"
  by code_simp

lemma getNextTickCell_location: "location (getNextTickCell w c) = location c"
  by (simp add: getNextTickCell_def Let_def kill_def vivify_def)

lemma foldl_append_concat: "foldl (\<lambda>acc curr. acc @ curr) a xss = a @ concat xss"
  by (induction xss arbitrary: a) simp_all

lemma tick_locations:
  "map location (cells (tick w))
     = map location (getLivingCells w) @ map location (getDeadNeighborsOfLivingCells w)"
  by (simp add: tick_def getNextTickCell_location comp_def)

lemma getDeadCellNeighbors_mem:
  "d \<in> set (getDeadCellNeighbors w c) \<Longrightarrow> isDead d \<and> getCell w (location d) = d"
  by (auto simp: getDeadCellNeighbors_def getCellNeighbors_def getCell_location)

lemma getDeadNeighborsOfLivingCells_mem:
  assumes "d \<in> set (getDeadNeighborsOfLivingCells w)"
  shows "isDead d \<and> getCell w (location d) = d"
proof -
  from assms
  have "d \<in> set (uniqueCells
      (concat (map (\<lambda>c. getDeadCellNeighbors w c) (filter isAlive (cells w)))))"
    unfolding getDeadNeighborsOfLivingCells_def foldl_append_concat by simp
  then have "d \<in> set (concat (map (\<lambda>c. getDeadCellNeighbors w c) (filter isAlive (cells w))))"
    by (rule subsetD [OF uniqueCells_subset])
  then obtain c where "d \<in> set (getDeadCellNeighbors w c)" by auto
  then show ?thesis by (rule getDeadCellNeighbors_mem)
qed

lemma getCell_tracked:
  assumes "distinct (map location (cells w))" and "c \<in> set (cells w)"
  shows "getCell w (location c) = c"
proof -
  from assms(1) have inj: "inj_on location (set (cells w))"
    by (simp add: distinct_map)
  from getCell_cases [of w "location c"] assms(2)
  have "getCell w (location c) \<in> set (cells w)"
    and "location (getCell w (location c)) = location c"
    by auto
  with inj assms(2) show ?thesis by (auto dest: inj_onD)
qed

text \<open>
  Claim C4. If no two cells of a world share a location, no two cells of the next
  world do: the living cells keep their distinct locations, the dead neighbours come out
  of \<^const>\<open>uniqueCells\<close>, and a dead neighbour is never at the location of a living cell.
\<close>

theorem tick_preserves_unique_locations:
  assumes "distinct (map location (cells w))"
  shows "distinct (map location (cells (tick w)))"
proof -
  have living: "distinct (map location (getLivingCells w))"
    using assms unfolding getLivingCells_def by (rule distinct_map_filter)
  have dead: "distinct (map location (getDeadNeighborsOfLivingCells w))"
    unfolding getDeadNeighborsOfLivingCells_def by (rule uniqueCells_distinct)
  have disjoint: "set (map location (getLivingCells w))
      \<inter> set (map location (getDeadNeighborsOfLivingCells w)) = {}"
  proof (rule ccontr)
    assume "\<not> ?thesis"
    then obtain c d where c: "c \<in> set (getLivingCells w)"
      and d: "d \<in> set (getDeadNeighborsOfLivingCells w)"
      and eq: "location c = location d"
      by auto
    from c have cw: "c \<in> set (cells w)" and alive: "isAlive c"
      by (simp_all add: getLivingCells_def)
    from getDeadNeighborsOfLivingCells_mem [OF d]
    have dd: "isDead d" and gd: "getCell w (location d) = d" by simp_all
    have gc: "getCell w (location c) = c" by (rule getCell_tracked [OF assms cw])
    from gc gd eq have "d = c" by metis
    with dd alive show False by (simp add: isDead_def)
  qed
  from living dead disjoint show ?thesis
    unfolding tick_locations by simp
qed

theorem tick_preserves_unique_locations_witness:
  "distinct (map location (cells (initialWorld (blinker2 None))))
   \<and> distinct (map location (cells (tick (initialWorld (blinker2 None)))))"
proof -
  have h: "distinct (map location (cells (initialWorld (blinker2 None))))"
    by (simp add: initialWorld_def blinker2_def centerOrDefault_def)
  with tick_preserves_unique_locations [OF h] show ?thesis by simp
qed

subsection \<open>Dead candidates\<close>

lemma neighborLocations_iff:
  "l \<in> set (neighborLocations m)
     \<longleftrightarrow> l \<noteq> m \<and> \<bar>x l - x m\<bar> \<le> 1 \<and> \<bar>y l - y m\<bar> \<le> 1"
proof -
  obtain a b where l: "l = \<lparr>x = a, y = b\<rparr>" by (cases l) simp
  obtain p q where m: "m = \<lparr>x = p, y = q\<rparr>" by (cases m) simp
  have A: "\<bar>a - p\<bar> \<le> 1 \<longleftrightarrow> a = p - 1 \<or> a = p \<or> a = p + 1" by arith
  have B: "\<bar>b - q\<bar> \<le> 1 \<longleftrightarrow> b = q - 1 \<or> b = q \<or> b = q + 1" by arith
  have C: "p - 1 \<noteq> p" "p + 1 \<noteq> p" "q - 1 \<noteq> q" "q + 1 \<noteq> q" by simp_all
  have "l \<in> set (neighborLocations m) \<longleftrightarrow>
      (a = p - 1 \<and> b = q - 1) \<or> (a = p \<and> b = q - 1) \<or> (a = p + 1 \<and> b = q - 1)
      \<or> (a = p - 1 \<and> b = q) \<or> (a = p + 1 \<and> b = q)
      \<or> (a = p - 1 \<and> b = q + 1) \<or> (a = p \<and> b = q + 1) \<or> (a = p + 1 \<and> b = q + 1)"
    unfolding l m neighborLocations_def by simp
  also have "\<dots> \<longleftrightarrow> (a \<noteq> p \<or> b \<noteq> q)
      \<and> (a = p - 1 \<or> a = p \<or> a = p + 1) \<and> (b = q - 1 \<or> b = q \<or> b = q + 1)"
    using C by auto
  also have "\<dots> \<longleftrightarrow> l \<noteq> m \<and> \<bar>x l - x m\<bar> \<le> 1 \<and> \<bar>y l - y m\<bar> \<le> 1"
    unfolding l m by (simp only: A B Location.simps Location.iffs) simp
  finally show ?thesis .
qed

lemma filter_distinct_key:
  "distinct (map f cs) \<Longrightarrow> a \<in> set cs \<Longrightarrow> filter (\<lambda>c. f c = f a) cs = [a]"
proof (induction cs)
  case Nil
  then show ?case by simp
next
  case (Cons c cs)
  show ?case
  proof (cases "c = a")
    case True
    with Cons.prems have "f a \<notin> f ` set cs" by simp
    then have "\<forall>d\<in>set cs. f d \<noteq> f a" by (metis image_eqI)
    then have "filter (\<lambda>c. f c = f a) cs = []" by (simp add: filter_empty_conv)
    with True show ?thesis by simp
  next
    case False
    with Cons.prems have "a \<in> set cs" and "distinct (map f cs)" and "f c \<noteq> f a"
      by auto
    with Cons.IH show ?thesis by simp
  qed
qed

lemma find_filter_single: "filter P cs = [a] \<Longrightarrow> find P cs = Some a"
  by (induction cs) (auto split: if_splits)


lemma dead_cell_eq: "isDead c \<Longrightarrow> location c = l \<Longrightarrow> c = \<lparr>location = l, state = Dead\<rparr>"
proof -
  assume "isDead c" and loc: "location c = l"
  then have "state c \<noteq> Alive" by (simp add: isDead_def isAlive_def)
  then have "state c = Dead" by (cases "state c") simp_all
  with loc show ?thesis by (cases c) simp
qed

lemma getCell_dead_location:
  assumes "\<forall>c\<in>set (cells w). location c = l \<longrightarrow> isDead c"
  shows "getCell w l = \<lparr>location = l, state = Dead\<rparr>"
  using getCell_cases [of w l] assms by (auto intro: dead_cell_eq)

lemma tick_cells_at:
  "filter (\<lambda>c. location c = l) (cells (tick w))
     = map (\<lambda>cell. getNextTickCell w cell)
         (filter (\<lambda>c. location c = l) (getLivingCells w)
          @ filter (\<lambda>c. location c = l) (getDeadNeighborsOfLivingCells w))"
  by (simp add: tick_def filter_map comp_def getNextTickCell_location)

lemma neighborLocations_magnitude:
  assumes "n \<in> set (neighborLocations m)"
  shows "\<bar>x n\<bar> \<le> \<bar>x m\<bar> + 1 \<and> \<bar>y n\<bar> \<le> \<bar>y m\<bar> + 1"
proof -
  from assms have "\<bar>x n - x m\<bar> \<le> 1" and "\<bar>y n - y m\<bar> \<le> 1"
    by (simp_all add: neighborLocations_iff)
  then show ?thesis by linarith
qed

lemma neighbours_of_candidate_exact:
  assumes "\<forall>c\<in>set (cells w).
        \<bar>x (location c)\<bar> \<le> 2 ^ 53 - 2 \<and> \<bar>y (location c)\<bar> \<le> 2 ^ 53 - 2"
    and "c \<in> set (cells w)"
    and "l \<in> set (neighborLocations (location c))"
    and "n \<in> set (neighborLocations l)"
  shows "\<bar>x l\<bar> \<le> 2 ^ 53 - 1 \<and> \<bar>y l\<bar> \<le> 2 ^ 53 - 1 \<and> \<bar>x n\<bar> \<le> 2 ^ 53 \<and> \<bar>y n\<bar> \<le> 2 ^ 53"
proof -
  from assms(1,2) have "\<bar>x (location c)\<bar> \<le> 2 ^ 53 - 2" and "\<bar>y (location c)\<bar> \<le> 2 ^ 53 - 2"
    by simp_all
  moreover from neighborLocations_magnitude [OF assms(3)]
  have "\<bar>x l\<bar> \<le> \<bar>x (location c)\<bar> + 1" and "\<bar>y l\<bar> \<le> \<bar>y (location c)\<bar> + 1"
    by simp_all
  moreover from neighborLocations_magnitude [OF assms(4)]
  have "\<bar>x n\<bar> \<le> \<bar>x l\<bar> + 1" and "\<bar>y n\<bar> \<le> \<bar>y l\<bar> + 1"
    by simp_all
  ultimately show ?thesis by linarith
qed

lemma dead_in_world_iff:
  assumes "distinct (map location (cells w))"
  shows "isDead (getCell w l) \<longleftrightarrow> (\<forall>c\<in>set (cells w). location c = l \<longrightarrow> isDead c)"
proof
  assume d: "isDead (getCell w l)"
  show "\<forall>c\<in>set (cells w). location c = l \<longrightarrow> isDead c"
  proof (intro ballI impI)
    fix c assume "c \<in> set (cells w)" and "location c = l"
    with getCell_tracked [OF assms, of c] have "getCell w l = c" by simp
    with d show "isDead c" by simp
  qed
next
  assume "\<forall>c\<in>set (cells w). location c = l \<longrightarrow> isDead c"
  then have "getCell w l = \<lparr>location = l, state = Dead\<rparr>" by (rule getCell_dead_location)
  then show "isDead (getCell w l)" by (simp add: isDead_def isAlive_def)
qed

text \<open>
  Claim C3 as stated fails: \<^const>\<open>getNextTickCell\<close> returns a dead candidate with
  another count unchanged and \<^const>\<open>tick\<close> keeps every mapped candidate, so the next
  collection lists the location, as a dead cell. In the blinker world the location
  \<open>(-2,0)\<close> is dead, next to the living cell \<open>(-1,0)\<close>, has one living neighbour, and
  the next world holds a dead cell at it.
\<close>

theorem tick_lists_dead_candidate:
  "isDead (getCell (initialWorld (blinker2 None)) \<lparr>x = - 2, y = 0\<rparr>)
   \<and> \<lparr>location = \<lparr>x = - 1, y = 0\<rparr>, state = Alive\<rparr> \<in> set (cells (initialWorld (blinker2 None)))
   \<and> \<lparr>x = - 2, y = 0\<rparr> \<in> set (neighborLocations \<lparr>x = - 1, y = 0\<rparr>)
   \<and> length (getLivingCellNeighbors (initialWorld (blinker2 None))
         (getCell (initialWorld (blinker2 None)) \<lparr>x = - 2, y = 0\<rparr>)) = 1
   \<and> \<lparr>location = \<lparr>x = - 2, y = 0\<rparr>, state = Dead\<rparr>
         \<in> set (cells (tick (initialWorld (blinker2 None))))"
  by code_simp

text \<open>
  Claim C3, amended. Let every coordinate of the cells of \<open>w\<close> have magnitude at most
  \<open>2^53 - 2\<close>, so that the neighbours of \<open>l\<close> are computed exactly (lemma
  \<open>neighbours_of_candidate_exact\<close>). Let \<open>l\<close> be dead in \<open>w\<close> (every cell \<open>w\<close> tracks at
  \<open>l\<close> is dead; for a world with one cell per location that is \<open>getCell w l\<close> being dead,
  by \<open>dead_in_world_iff\<close>), a Moore neighbour of a living cell of \<open>w\<close>, with a number of
  living neighbours other than 3. Then the collection of \<open>tick w\<close> holds exactly one cell
  at \<open>l\<close>, and it is dead; so \<open>l\<close> stays dead for \<^const>\<open>getCell\<close>.
\<close>

theorem tick_dead_candidate_stays_dead:
  assumes exact: "\<forall>c\<in>set (cells w).
        \<bar>x (location c)\<bar> \<le> 2 ^ 53 - 2 \<and> \<bar>y (location c)\<bar> \<le> 2 ^ 53 - 2"
    and dead: "\<forall>c\<in>set (cells w). location c = l \<longrightarrow> isDead c"
    and nbr: "\<exists>c\<in>set (cells w). isAlive c \<and> l \<noteq> location c
        \<and> \<bar>x l - x (location c)\<bar> \<le> 1 \<and> \<bar>y l - y (location c)\<bar> \<le> 1"
    and count: "length (getLivingCellNeighbors w (getCell w l)) \<noteq> 3"
  shows "filter (\<lambda>c. location c = l) (cells (tick w)) = [\<lparr>location = l, state = Dead\<rparr>]
    \<and> getCell (tick w) l = \<lparr>location = l, state = Dead\<rparr>"
proof -
  define g where "g = \<lparr>location = l, state = Dead\<rparr>"
  have g_loc: "location g = l" and g_dead: "isDead g" and g_not_alive: "\<not> isAlive g"
    by (simp_all add: g_def isDead_def isAlive_def)
  have g_get: "getCell w l = g"
    unfolding g_def using dead by (rule getCell_dead_location)
  from nbr obtain c where cw: "c \<in> set (cells w)" and alive: "isAlive c"
    and near: "l \<in> set (neighborLocations (location c))"
    unfolding neighborLocations_iff by blast
  define D where "D = concat (map (\<lambda>c. getDeadCellNeighbors w c) (filter isAlive (cells w)))"
  have dn: "getDeadNeighborsOfLivingCells w = uniqueCells D"
    by (simp add: getDeadNeighborsOfLivingCells_def foldl_append_concat D_def)
  from near g_get g_dead have "g \<in> set (getDeadCellNeighbors w c)"
    by (auto simp: getDeadCellNeighbors_def getCellNeighbors_def)
  with cw alive have "g \<in> set D" by (auto simp: D_def)
  with g_loc have "l \<in> set (map location D)" by force
  then have "l \<in> set (map location (uniqueCells D))"
    by (simp only: uniqueCells_locations)
  then obtain d where d: "d \<in> set (getDeadNeighborsOfLivingCells w)" and d_loc: "location d = l"
    unfolding dn by auto
  from getDeadNeighborsOfLivingCells_mem [OF d] d_loc g_get have "d = g" by simp
  with d have g_in: "g \<in> set (getDeadNeighborsOfLivingCells w)" by simp
  have "distinct (map location (getDeadNeighborsOfLivingCells w))"
    unfolding dn by (rule uniqueCells_distinct)
  from filter_distinct_key [OF this g_in]
  have deadN: "filter (\<lambda>c. location c = l) (getDeadNeighborsOfLivingCells w) = [g]"
    by (simp add: g_loc)
  have living: "filter (\<lambda>c. location c = l) (getLivingCells w) = []"
    using dead by (auto simp: getLivingCells_def filter_empty_conv isDead_def)
  from count have "getNextTickCell w g = g"
    by (simp add: getNextTickCell_def Let_def g_not_alive g_get)
  with living deadN have cells_at: "filter (\<lambda>c. location c = l) (cells (tick w)) = [g]"
    by (simp add: tick_cells_at)
  then have "find (\<lambda>c. location c = l) (cells (tick w)) = Some g"
    by (rule find_filter_single)
  then have "getCell (tick w) l = g"
    by (simp add: getCell_def isCellAtLocation_iff)
  with cells_at show ?thesis by (simp add: g_def)
qed


theorem tick_dead_candidate_stays_dead_witness:
  "\<not> (\<exists>c\<in>set (cells (initialWorld (blinker2 None))).
         \<not> (\<bar>x (location c)\<bar> \<le> 2 ^ 53 - 2 \<and> \<bar>y (location c)\<bar> \<le> 2 ^ 53 - 2))
   \<and> \<not> (\<exists>c\<in>set (cells (initialWorld (blinker2 None))).
         location c = \<lparr>x = - 2, y = 0\<rparr> \<and> \<not> isDead c)
   \<and> (\<exists>c\<in>set (cells (initialWorld (blinker2 None))). isAlive c
        \<and> \<lparr>x = - 2, y = 0\<rparr> \<noteq> location c
        \<and> \<bar>x \<lparr>x = - 2, y = 0\<rparr> - x (location c)\<bar> \<le> 1
        \<and> \<bar>y \<lparr>x = - 2, y = 0\<rparr> - y (location c)\<bar> \<le> 1)
   \<and> length (getLivingCellNeighbors (initialWorld (blinker2 None))
         (getCell (initialWorld (blinker2 None)) \<lparr>x = - 2, y = 0\<rparr>)) \<noteq> 3
   \<and> filter (\<lambda>c. location c = \<lparr>x = - 2, y = 0\<rparr>) (cells (tick (initialWorld (blinker2 None))))
       = [\<lparr>location = \<lparr>x = - 2, y = 0\<rparr>, state = Dead\<rparr>]
   \<and> getCell (tick (initialWorld (blinker2 None))) \<lparr>x = - 2, y = 0\<rparr>
       = \<lparr>location = \<lparr>x = - 2, y = 0\<rparr>, state = Dead\<rparr>"
proof -
  have h0: "\<forall>c\<in>set (cells (initialWorld (blinker2 None))).
      \<bar>x (location c)\<bar> \<le> 2 ^ 53 - 2 \<and> \<bar>y (location c)\<bar> \<le> 2 ^ 53 - 2"
    by (simp add: initialWorld_def blinker2_def centerOrDefault_def)
  have h1: "\<forall>c\<in>set (cells (initialWorld (blinker2 None))).
      location c = \<lparr>x = - 2, y = 0\<rparr> \<longrightarrow> isDead c"
    by (simp add: initialWorld_def blinker2_def centerOrDefault_def)
  have h2: "\<exists>c\<in>set (cells (initialWorld (blinker2 None))). isAlive c
        \<and> \<lparr>x = - 2, y = 0\<rparr> \<noteq> location c
        \<and> \<bar>x \<lparr>x = - 2, y = 0\<rparr> - x (location c)\<bar> \<le> 1
        \<and> \<bar>y \<lparr>x = - 2, y = 0\<rparr> - y (location c)\<bar> \<le> 1"
    by (simp add: initialWorld_def blinker2_def centerOrDefault_def isAlive_def)
  have h3: "length (getLivingCellNeighbors (initialWorld (blinker2 None))
         (getCell (initialWorld (blinker2 None)) \<lparr>x = - 2, y = 0\<rparr>)) \<noteq> 3"
    by code_simp
  from h0 have h0': "\<not> (\<exists>c\<in>set (cells (initialWorld (blinker2 None))).
         \<not> (\<bar>x (location c)\<bar> \<le> 2 ^ 53 - 2 \<and> \<bar>y (location c)\<bar> \<le> 2 ^ 53 - 2))"
    by blast
  from h1 have h1': "\<not> (\<exists>c\<in>set (cells (initialWorld (blinker2 None))).
         location c = \<lparr>x = - 2, y = 0\<rparr> \<and> \<not> isDead c)"
    by blast
  from tick_dead_candidate_stays_dead [OF h0 h1 h2 h3] h0' h1' h2 h3 show ?thesis by blast
qed

section \<open>Symmetries of patterns\<close>

text \<open>
  Claim C9. Whatever the center, \<^const>\<open>mirror\<close> along the x axis sends the cell at
  \<open>(a, b)\<close> to \<open>(a, -b)\<close> and along the y axis to \<open>(-a, b)\<close>; the state is kept.
\<close>

theorem mirror_is_reflection:
  "mirror p AxisX cen
     = map (\<lambda>c. c\<lparr>location := \<lparr>x = x (location c), y = - y (location c)\<rparr>\<rparr>) (p None)
   \<and> mirror p AxisY cen
     = map (\<lambda>c. c\<lparr>location := \<lparr>x = - x (location c), y = y (location c)\<rparr>\<rparr>) (p None)"
  by (simp add: mirror_def)

text \<open>
  Claim C7 fails on the code: the new \<^verbatim>\<open>y\<close> is computed from \<^verbatim>\<open>center.x\<close>.
  Translating the blinker by the zero offset to the center \<open>(1,0)\<close> lifts it to the
  row \<open>y = 1\<close>, where the claim has it on the row \<open>y = 0\<close>.
\<close>

theorem translate_uses_center_x_for_y:
  "translate blinker2 \<lparr>x = 0, y = 0\<rparr> (Some \<lparr>x = 1, y = 0\<rparr>)
     = [\<lparr>location = \<lparr>x = 0, y = 1\<rparr>, state = Alive\<rparr>,
        \<lparr>location = \<lparr>x = 1, y = 1\<rparr>, state = Alive\<rparr>,
        \<lparr>location = \<lparr>x = 2, y = 1\<rparr>, state = Alive\<rparr>]"
  by (simp add: translate_def blinker2_def centerOrDefault_def)

lemma rotateLocation_fails_iff:
  "(\<exists>e. rotateLocation l r = Inl e) \<longleftrightarrow> rvalue r \<notin> {90, - 270, - 90, 270, 180}"
  by (simp add: rotateLocation_def Let_def)

text \<open>
  Claim C6 fails on the code: the type \<^verbatim>\<open>RotationValue\<close> lists \<open>-180\<close>, and the
  \<^verbatim>\<open>switch\<close> of \<^const>\<open>rotateLocation\<close> has no case for it, so it throws.
\<close>

theorem rotateLocation_rejects_minus_180:
  "rotateLocation \<lparr>x = 0, y = 0\<rparr>
     \<lparr>direction = Counterclockwise, rvalue = - 180, center = \<lparr>x = 0, y = 0\<rparr>\<rparr> = Inl (Error [])"
  by (simp add: rotateLocation_def)

text \<open>
  Claim C8 fails on the code: the quarter turns subtract the center and never add it
  back, so the center \<open>(1,0)\<close> is sent to the origin by a turn of 90 about itself.
\<close>

theorem rotateLocation_moves_center:
  "rotateLocation \<lparr>x = 1, y = 0\<rparr>
     \<lparr>direction = Clockwise, rvalue = 90, center = \<lparr>x = 1, y = 0\<rparr>\<rparr> = Inr \<lparr>x = 0, y = 0\<rparr>"
  by (simp add: rotateLocation_def)



end
